theory Spec2Isabelle
  imports Complex_Main "HOL-Library.Sublist"
begin

section \<open>Floating-point values as rationals\<close>

text \<open>
  The script of \<^verbatim>\<open>multilabel_classification_axiomatized.py\<close> stores its samples as
  \<^verbatim>\<open>float32\<close> and evaluates \<^verbatim>\<open>np.sum(np.square(data-[.5,.5]),axis=1)\<close> in
  \<^verbatim>\<open>float64\<close>: the list \<^verbatim>\<open>[.5,.5]\<close> becomes a \<^verbatim>\<open>float64\<close> array, and the
  difference of a \<^verbatim>\<open>float32\<close> and a \<^verbatim>\<open>float64\<close> array is \<^verbatim>\<open>float64\<close>.
  Every finite floating-point value is a rational number, so a value is a \<^typ>\<open>rat\<close>
  and every arithmetic operation is the exact operation followed by rounding to the
  nearest representable value, ties to even. No operation of the script overflows or
  underflows on \<^verbatim>\<open>float32\<close> inputs, so the exponent is left unbounded in \<open>fl64\<close>.
\<close>

text \<open>The binary exponent \<open>e\<close> of a positive value: \<open>2 ^ e \<le> r < 2 ^ (e + 1)\<close>.\<close>

function expo_up :: "rat \<Rightarrow> int" where
  "expo_up r = (if 2 \<le> r then expo_up (r / 2) + 1 else 0)"
  by pat_completeness auto
termination
proof (relation "measure (\<lambda>r. nat \<lfloor>r\<rfloor>)")
  show "wf (measure (\<lambda>r::rat. nat \<lfloor>r\<rfloor>))" by simp
next
  fix r :: rat
  assume r: "2 \<le> r"
  have "\<lfloor>r / 2\<rfloor> < \<lfloor>r\<rfloor>"
    using r by (simp add: floor_less_iff) linarith
  moreover have "0 < \<lfloor>r\<rfloor>" using r by simp
  ultimately show "(r / 2, r) \<in> measure (\<lambda>r. nat \<lfloor>r\<rfloor>)" by simp
qed

function expo_down :: "rat \<Rightarrow> int" where
  "expo_down r = (if 0 < r \<and> r < 1 then expo_down (r * 2) - 1 else 0)"
  by pat_completeness auto
termination
proof (relation "measure (\<lambda>r. nat \<lfloor>1 / r\<rfloor>)")
  show "wf (measure (\<lambda>r::rat. nat \<lfloor>1 / r\<rfloor>))" by simp
next
  fix r :: rat
  assume r: "0 < r \<and> r < 1"
  then have one: "1 < 1 / r" by simp
  define y where "y = 1 / r"
  have "y / 2 < of_int \<lfloor>y\<rfloor>"
  proof -
    have "y < of_int \<lfloor>y\<rfloor> + 1" by linarith
    moreover have "1 \<le> \<lfloor>y\<rfloor>" using one by (simp add: y_def)
    then have "(1::rat) \<le> of_int \<lfloor>y\<rfloor>" by linarith
    ultimately show ?thesis by linarith
  qed
  moreover have "1 / (r * 2) = y / 2" by (simp add: y_def)
  ultimately have "1 / (r * 2) < of_int \<lfloor>1 / r\<rfloor>" by (simp only: y_def)
  then have "\<lfloor>1 / (r * 2)\<rfloor> < \<lfloor>1 / r\<rfloor>"
    by (simp only: floor_less_iff)
  moreover have "0 < \<lfloor>1 / r\<rfloor>" using one by simp
  ultimately show "(r * 2, r) \<in> measure (\<lambda>r. nat \<lfloor>1 / r\<rfloor>)"
    by (simp only: in_measure)
qed

definition expo :: "rat \<Rightarrow> int" where
  "expo r = (if 1 \<le> r then expo_up r else expo_down r)"

text \<open>Rounding a rational to the nearest integer, ties to the even one.\<close>

definition rne :: "rat \<Rightarrow> int" where
  "rne q = (let f = \<lfloor>q\<rfloor>; d = q - of_int f in
     if d < 1 / 2 then f else if 1 / 2 < d then f + 1 else if even f then f else f + 1)"

text \<open>Rounding to \<open>p\<close> significant bits: the quantum is \<open>2 ^ (e - (p - 1))\<close>.\<close>

definition round_to :: "nat \<Rightarrow> rat \<Rightarrow> rat" where
  "round_to p r = (if r = 0 then 0 else
     let u = 2 powi (expo \<bar>r\<bar> - (int p - 1)) in sgn r * of_int (rne (\<bar>r\<bar> / u)) * u)"

definition fl64 :: "rat \<Rightarrow> rat" where
  "fl64 r = round_to 53 r"

text \<open>
  The finite \<^verbatim>\<open>float32\<close> values: 24 significant bits, least normal exponent \<open>-126\<close>
  (below it the quantum stays \<open>2 ^ -149\<close>), magnitude below \<open>2 ^ 128\<close>.
\<close>

definition is_float32 :: "rat \<Rightarrow> bool" where
  "is_float32 r = (r = 0 \<or> (\<bar>r\<bar> < 2 ^ 128 \<and>
     (let q = \<bar>r\<bar> / 2 powi (max (expo \<bar>r\<bar>) (- 126) - 23) in of_int \<lfloor>q\<rfloor> = q)))"

section \<open>The sample array and the class masks\<close>

type_synonym point = "rat \<times> rat"
type_synonym array = "point list"

definition nr_samples :: nat where
  "nr_samples = 1000"

text \<open>
  Line 13: \<^verbatim>\<open>data=np.random.uniform([0,0],[1.,1.],(nr_samples,2)).astype(np.float32)\<close>.
  The generator is outside the script, so the array is a parameter. What the line fixes is
  its shape (\<open>nr_samples\<close> rows of two columns; the theorems hold for any number of rows)
  and that every coordinate is a \<^verbatim>\<open>float32\<close> value of the unit interval
  (a \<^verbatim>\<open>float64\<close> of \<open>[0, 1)\<close> rounded to \<^verbatim>\<open>float32\<close> may be \<open>1\<close>).
\<close>

definition unit_float32 :: "rat \<Rightarrow> bool" where
  "unit_float32 x = (is_float32 x \<and> 0 \<le> x \<and> x \<le> 1)"

definition sample_array :: "nat \<Rightarrow> array \<Rightarrow> bool" where
  "sample_array n data =
     (length data = n \<and> list_all (\<lambda>p. unit_float32 (fst p) \<and> unit_float32 (snd p)) data)"

definition center :: point where
  "center = (1 / 2, 1 / 2)"

text \<open>The literal \<^verbatim>\<open>.09\<close> is the \<^verbatim>\<open>float64\<close> nearest to \<open>9 / 100\<close>.\<close>

definition threshold :: rat where
  "threshold = fl64 (9 / 100)"

text \<open>
  One row of \<^verbatim>\<open>np.sum(np.square(data-[.5,.5]),axis=1)\<close>: subtraction, squaring and
  the sum of the two columns, each rounded to \<^verbatim>\<open>float64\<close>.
\<close>

definition sq_dist :: "point \<Rightarrow> rat" where
  "sq_dist p = (let dx = fl64 (fst p - fst center); dy = fl64 (snd p - snd center)
     in fl64 (fl64 (dx * dx) + fl64 (dy * dy)))"

text \<open>
  The squared Euclidean distance to the centre in exact arithmetic, and the exact
  threshold: what the specification speaks of. \<open>sq_dist\<close> is compared with it below.
\<close>

definition sq_dist_exact :: "point \<Rightarrow> rat" where
  "sq_dist_exact p = (fst p - 1 / 2)\<^sup>2 + (snd p - 1 / 2)\<^sup>2"

definition mask_A :: "array \<Rightarrow> bool list" where
  "mask_A data = map (\<lambda>p. sq_dist p < threshold) data"

definition mask_B :: "array \<Rightarrow> bool list" where
  "mask_B data = map (\<lambda>p. threshold \<le> sq_dist p) data"

text \<open>\<^verbatim>\<open>np.where(mask)\<close>: the indices of the true entries, ascending.\<close>

definition np_where :: "bool list \<Rightarrow> nat list" where
  "np_where msk = filter (\<lambda>i. msk ! i) [0..<length msk]"

text \<open>
  \<^verbatim>\<open>data[idx]\<close>: the rows at the given indices, in the order of the indices, as a new
  array. The indices of \<open>np_where\<close> are below the length, so the read is in range.
\<close>

definition take_rows :: "'a list \<Rightarrow> nat list \<Rightarrow> 'a list" where
  "take_rows xs idx = map (\<lambda>i. xs ! i) idx"

text \<open>Lines 14 and 15.\<close>

definition select_A :: "array \<Rightarrow> array" where
  "select_A data = take_rows data (np_where (mask_A data))"

definition select_B :: "array \<Rightarrow> array" where
  "select_B data = take_rows data (np_where (mask_B data))"

text \<open>
  Line 16: the right-hand side is evaluated before either name is rebound, so both slices
  use the lengths before truncation. \<^verbatim>\<open>a[:m,:]\<close> with \<open>0 \<le> m\<close> is \<open>take m a\<close>.
\<close>

definition truncate_pair :: "'a list \<times> 'a list \<Rightarrow> 'a list \<times> 'a list" where
  "truncate_pair ab = (case ab of (a, b) \<Rightarrow>
     (take (min (length a) (length b)) a, take (min (length a) (length b)) b))"

definition balanced :: "array \<Rightarrow> array \<times> array" where
  "balanced data = truncate_pair (select_A data, select_B data)"

section \<open>The script as a sequence of statements\<close>

text \<open>
  The calls into the wrapper \<^verbatim>\<open>logictensornetworks_wrapper\<close>, into
  \<^verbatim>\<open>matplotlib.pyplot\<close> and to \<^verbatim>\<open>print\<close>, with the arguments the script passes.
  What the libraries do with them is not part of the script; the script is modelled by
  the sequence of calls it makes and by the values its names are bound to.
\<close>

datatype ltnw_call =
    Predicate string nat
  | Variable string array
  | Formula string
  | Initialize_knowledgebase rat
  | Train nat
  | Ask string
  | Constant string "rat list"

datatype plt_call =
    Figure nat nat
  | Subplot nat nat nat
  | Title string
  | Scatter "rat list" "rat list" "rat list"
  | Show

datatype print_arg = Len nat | Tensor "rat list"

datatype event =
    Ltnw ltnw_call
  | Plt plt_call
  | Print string print_arg

text \<open>
  What the script receives from outside: the two draws of
  \<^verbatim>\<open>np.random.uniform(...).astype(np.float32)\<close>, the value \<^verbatim>\<open>ltnw.train\<close> returns
  and the tensor \<^verbatim>\<open>ltnw.ask\<close> returns for a query (already squeezed to one axis).
\<close>

record extern =
  uniform_first :: array
  uniform_second :: array
  train_result :: rat
  ask_result :: "string \<Rightarrow> rat list"

text \<open>
  The names of the script and the calls made so far. A name holds the empty array (or
  \<open>0\<close>) until its first assignment; the script reads no name before assigning it.
\<close>

record state =
  data :: array
  data_A :: array
  data_B :: array
  sat_level :: rat
  result :: "rat list"
  data_test :: array
  trace :: "event list"

definition initial :: state where
  "initial = \<lparr>data = [], data_A = [], data_B = [], sat_level = 0, result = [],
     data_test = [], trace = []\<rparr>"

definition max_iterations :: nat where
  "max_iterations = 20000"

definition emit :: "event \<Rightarrow> state \<Rightarrow> state" where
  "emit e s = s\<lparr>trace := trace s @ [e]\<rparr>"

text \<open>\<^verbatim>\<open>result=ltnw.ask(q)\<close>: the call is made and its value bound to \<^verbatim>\<open>result\<close>.\<close>

definition ask :: "extern \<Rightarrow> string \<Rightarrow> state \<Rightarrow> state" where
  "ask x q s = (emit (Ltnw (Ask q)) s)\<lparr>result := ask_result x q\<rparr>"

text \<open>\<^verbatim>\<open>print(fmt % ltnw.ask(q))\<close>: the call is made and its value printed.\<close>

definition print_ask :: "extern \<Rightarrow> string \<Rightarrow> string \<Rightarrow> state \<Rightarrow> state" where
  "print_ask x fmt q s = emit (Print fmt (Tensor (ask_result x q))) (emit (Ltnw (Ask q)) s)"

text \<open>\<^verbatim>\<open>plt.scatter(d[:,0],d[:,1],c=result.squeeze())\<close>.\<close>

definition scatter :: "array \<Rightarrow> state \<Rightarrow> state" where
  "scatter d s = emit (Plt (Scatter (map fst d) (map snd d) (result s))) s"

text \<open>
  Lines 13 to 68, one entry for each statement (line 16 is one statement; the logger
  configuration of lines 3 to 5 touches none of the names).
\<close>

definition script :: "extern \<Rightarrow> (state \<Rightarrow> state) list" where
  "script x =
   [ \<lambda>s. s\<lparr>data := uniform_first x\<rparr>,
     \<lambda>s. s\<lparr>data_A := take_rows (data s) (np_where (mask_A (data s)))\<rparr>,
     \<lambda>s. s\<lparr>data_B := take_rows (data s) (np_where (mask_B (data s)))\<rparr>,
     \<lambda>s. s\<lparr>data_A := fst (truncate_pair (data_A s, data_B s)),
              data_B := snd (truncate_pair (data_A s, data_B s))\<rparr>,
     \<lambda>s. emit (Print ''# samples data_A: %s'' (Len (length (data_A s)))) s,
     \<lambda>s. emit (Print ''# samples data_B: %s'' (Len (length (data_B s)))) s,
     \<lambda>s. emit (Print ''# samples data: %s'' (Len (length (data s)))) s,
     emit (Ltnw (Predicate ''A'' 2)),
     emit (Ltnw (Predicate ''B'' 2)),
     \<lambda>s. emit (Ltnw (Variable ''?data_A'' (data_A s))) s,
     \<lambda>s. emit (Ltnw (Variable ''?data_B'' (data_B s))) s,
     \<lambda>s. emit (Ltnw (Variable ''?data'' (data s))) s,
     emit (Ltnw (Formula ''forall ?data_A: A(?data_A)'')),
     emit (Ltnw (Formula ''forall ?data_B: B(?data_B)'')),
     emit (Ltnw (Formula ''forall ?data: A(?data) -> ~B(?data)'')),
     emit (Ltnw (Formula ''forall ?data: ~B(?data) -> A(?data)'')),
     emit (Ltnw (Initialize_knowledgebase (fl64 (1 / 10)))),
     \<lambda>s. (emit (Ltnw (Train max_iterations)) s)\<lparr>sat_level := train_result x\<rparr>,
     emit (Plt (Figure 10 8)),
     ask x ''A(?data)'',
     emit (Plt (Subplot 2 2 1)),
     emit (Plt (Title ''A(x) - training'')),
     \<lambda>s. scatter (data s) s,
     ask x ''B(?data)'',
     emit (Plt (Subplot 2 2 2)),
     emit (Plt (Title ''B(x) - training'')),
     \<lambda>s. scatter (data s) s,
     \<lambda>s. s\<lparr>data_test := uniform_second x\<rparr>,
     \<lambda>s. emit (Ltnw (Variable ''?data_test'' (data_test s))) s,
     ask x ''A(?data_test)'',
     emit (Plt (Subplot 2 2 3)),
     emit (Plt (Title ''A(x) - test'')),
     \<lambda>s. scatter (data_test s) s,
     ask x ''B(?data_test)'',
     emit (Plt (Subplot 2 2 4)),
     \<lambda>s. scatter (data_test s) s,
     emit (Plt (Title ''B(x) -test'')),
     emit (Plt Show),
     emit (Ltnw (Constant ''a'' [1 / 2, 1 / 2])),
     emit (Ltnw (Constant ''b'' [3 / 4, 3 / 4])),
     print_ask x ''a is in A: %s'' ''A(a)'',
     print_ask x ''b is in A: %s'' ''A(b)'',
     print_ask x ''a is in B: %s'' ''B(a)'',
     print_ask x ''b is in B: %s'' ''B(b)'' ]"

definition run :: "(state \<Rightarrow> state) list \<Rightarrow> state \<Rightarrow> state" where
  "run steps s = foldl (\<lambda>s f. f s) s steps"

definition final :: "extern \<Rightarrow> state" where
  "final x = run (script x) initial"

text \<open>The calls into the wrapper, in the order they were made.\<close>

fun ltnw_calls :: "event list \<Rightarrow> ltnw_call list" where
  "ltnw_calls [] = []"
| "ltnw_calls (Ltnw c # es) = c # ltnw_calls es"
| "ltnw_calls (e # es) = ltnw_calls es"

fun is_formula :: "ltnw_call \<Rightarrow> bool" where
  "is_formula (Formula f) = True"
| "is_formula c = False"

fun formulas :: "ltnw_call list \<Rightarrow> string list" where
  "formulas [] = []"
| "formulas (Formula f # cs) = f # formulas cs"
| "formulas (c # cs) = formulas cs"

fun constants :: "ltnw_call list \<Rightarrow> (string \<times> rat list) list" where
  "constants [] = []"
| "constants (Constant n v # cs) = (n, v) # constants cs"
| "constants (c # cs) = constants cs"

text \<open>
  How many arguments each parenthesised application in a formula or query has, left to
  right: one more than the commas between its parentheses. Used to read off the arity the
  script gives its predicates.
\<close>

fun scan_args :: "nat option \<Rightarrow> string \<Rightarrow> nat list" where
  "scan_args cur [] = []"
| "scan_args cur (c # cs) =
     (if c = CHR ''('' then scan_args (Some 1) cs
      else if c = CHR '','' then scan_args (map_option Suc cur) cs
      else if c = CHR '')'' then (case cur of None \<Rightarrow> scan_args None cs
                                 | Some n \<Rightarrow> n # scan_args None cs)
      else scan_args cur cs)"

definition arg_counts :: "string \<Rightarrow> nat list" where
  "arg_counts f = scan_args None f"

fun queries :: "ltnw_call list \<Rightarrow> string list" where
  "queries [] = []"
| "queries (Ask q # cs) = q # queries cs"
| "queries (c # cs) = queries cs"

section \<open>Selection is filtering\<close>

lemma np_where_in_range: "i \<in> set (np_where msk) \<Longrightarrow> i < length msk"
  by (simp add: np_where_def)

lemma take_rows_np_where: "take_rows xs (np_where (map P xs)) = filter P xs"
proof -
  have "filter P xs = filter P (map (\<lambda>i. xs ! i) [0..<length xs])"
    by (simp add: map_nth)
  also have "\<dots> = map (\<lambda>i. xs ! i) (filter (\<lambda>i. P (xs ! i)) [0..<length xs])"
    by (simp add: filter_map comp_def)
  also have "filter (\<lambda>i. P (xs ! i)) [0..<length xs]
      = filter (\<lambda>i. map P xs ! i) [0..<length xs]"
    by (rule filter_cong) simp_all
  finally show ?thesis
    by (simp add: take_rows_def np_where_def)
qed

lemma select_A_filter: "select_A d = filter (\<lambda>p. sq_dist p < threshold) d"
  by (simp add: select_A_def mask_A_def take_rows_np_where)

lemma select_B_filter: "select_B d = filter (\<lambda>p. threshold \<le> sq_dist p) d"
  by (simp add: select_B_def mask_B_def take_rows_np_where)

lemma select_B_filter_not: "select_B d = filter (\<lambda>p. \<not> sq_dist p < threshold) d"
  by (simp add: select_B_filter not_less)

lemma length_select_sum: "length (select_A d) + length (select_B d) = length d"
  by (simp add: select_A_filter select_B_filter_not sum_length_filter_compl)

lemma fst_balanced:
  "fst (balanced d) =
     take (min (length (select_A d)) (length (select_B d))) (select_A d)"
  by (simp add: balanced_def truncate_pair_def)

lemma snd_balanced:
  "snd (balanced d) =
     take (min (length (select_A d)) (length (select_B d))) (select_B d)"
  by (simp add: balanced_def truncate_pair_def)

section \<open>The binary exponent\<close>

declare expo_up.simps [simp del] expo_down.simps [simp del]

lemma two_powi_add: "(2::rat) powi (a + b) = 2 powi a * 2 powi b"
  by (rule power_int_add) simp

lemma two_powi_less_iff: "(2::rat) powi a < 2 powi b \<longleftrightarrow> a < b"
proof
  assume l: "(2::rat) powi a < 2 powi b"
  show "a < b"
  proof (rule ccontr)
    assume "\<not> a < b"
    then have "b \<le> a" by simp
    then have "(2::rat) powi b \<le> 2 powi a" by (rule power_int_increasing) simp
    with l show False by simp
  qed
next
  assume "a < b"
  then show "(2::rat) powi a < 2 powi b" by (rule power_int_strict_increasing) simp
qed

lemma two_powi_le_iff: "(2::rat) powi a \<le> 2 powi b \<longleftrightarrow> a \<le> b"
  using two_powi_less_iff [of b a] by (simp add: not_less [symmetric])

lemma two_powi_Suc: "(2::rat) powi (e + 1) = 2 * 2 powi e"
  by (simp add: two_powi_add)

lemma expo_up_bounds: "1 \<le> r \<Longrightarrow> 2 powi expo_up r \<le> r \<and> r < 2 powi (expo_up r + 1)"
proof (induction r rule: expo_up.induct)
  case (1 r)
  show ?case
  proof (cases "2 \<le> r")
    case True
    then have "1 \<le> r / 2" by simp
    with 1 True have IH: "2 powi expo_up (r / 2) \<le> r / 2 \<and> r / 2 < 2 powi (expo_up (r / 2) + 1)"
      by simp
    have e: "expo_up r = expo_up (r / 2) + 1"
      using True by (subst expo_up.simps) simp
    have p: "(2::rat) powi (expo_up (r / 2) + 1) = 2 * 2 powi expo_up (r / 2)"
      "(2::rat) powi (expo_up (r / 2) + 1 + 1) = 2 * 2 powi (expo_up (r / 2) + 1)"
      by (rule two_powi_Suc)+
    show ?thesis using IH unfolding e p by linarith
  next
    case False
    then have e: "expo_up r = 0" by (subst expo_up.simps) simp
    show ?thesis using False 1(2) unfolding e by simp
  qed
qed

lemma expo_down_bounds:
  "0 < r \<Longrightarrow> r < 1 \<Longrightarrow> 2 powi expo_down r \<le> r \<and> r < 2 powi (expo_down r + 1)"
proof (induction r rule: expo_down.induct)
  case (1 r)
  have e: "expo_down r = expo_down (r * 2) - 1"
    using 1(2,3) by (subst expo_down.simps) simp
  show ?case
  proof (cases "r * 2 < 1")
    case True
    with 1 have IH: "2 powi expo_down (r * 2) \<le> r * 2 \<and> r * 2 < 2 powi (expo_down (r * 2) + 1)"
      by simp
    have p: "(2::rat) powi (expo_down (r * 2) - 1 + 1) = 2 * 2 powi (expo_down (r * 2) - 1)"
      "(2::rat) powi (expo_down (r * 2) + 1) = 2 * 2 powi expo_down (r * 2)"
      by (rule two_powi_Suc)+
    have q: "(2::rat) powi expo_down (r * 2) = 2 * 2 powi (expo_down (r * 2) - 1)"
      using p(1) by simp
    show ?thesis using IH unfolding e p q by linarith
  next
    case False
    then have "expo_down (r * 2) = 0" by (subst expo_down.simps) simp
    then have e': "expo_down r = - 1" using e by simp
    show ?thesis using False 1(3) unfolding e' by simp
  qed
qed

lemma expo_bounds: "0 < r \<Longrightarrow> 2 powi expo r \<le> r \<and> r < 2 powi (expo r + 1)"
  using expo_up_bounds [of r] expo_down_bounds [of r] by (simp add: expo_def)

lemma expo_unique:
  assumes "0 < r" "2 powi e \<le> r" "r < 2 powi (e + 1)"
  shows "expo r = e"
proof -
  from expo_bounds [OF assms(1)]
  have b: "2 powi expo r \<le> r" "r < 2 powi (expo r + 1)" by simp_all
  have "(2::rat) powi e < 2 powi (expo r + 1)" using assms(2) b(2) by simp
  then have "e < expo r + 1" by (simp only: two_powi_less_iff)
  moreover have "(2::rat) powi expo r < 2 powi (e + 1)" using assms(3) b(1) by simp
  then have "expo r < e + 1" by (simp only: two_powi_less_iff)
  ultimately show ?thesis by simp
qed

lemma expo_ge: "0 < r \<Longrightarrow> 2 powi e \<le> r \<Longrightarrow> e \<le> expo r"
proof -
  assume r: "0 < r" and le: "2 powi e \<le> r"
  from expo_bounds [OF r] le have "(2::rat) powi e < 2 powi (expo r + 1)" by simp
  then have "e < expo r + 1" by (simp only: two_powi_less_iff)
  then show ?thesis by simp
qed

lemma expo_less: "0 < r \<Longrightarrow> r < 2 powi e \<Longrightarrow> expo r < e"
proof -
  assume r: "0 < r" and less: "r < 2 powi e"
  from expo_bounds [OF r] less have "(2::rat) powi expo r < 2 powi e" by simp
  then show ?thesis by (simp only: two_powi_less_iff)
qed

lemma rne_of_int: "rne (of_int n) = n"
  by (simp add: rne_def)

lemma floor_le_rne: "\<lfloor>q\<rfloor> \<le> rne q"
  by (simp add: rne_def Let_def)

lemma rne_nonneg: "0 \<le> q \<Longrightarrow> 0 \<le> rne q"
  using floor_le_rne [of q] by (simp add: order_trans [of 0 "\<lfloor>q\<rfloor>"])

section \<open>Rounding to \<^verbatim>\<open>float64\<close>\<close>

text \<open>
  Rounding is odd, fixes every value with at most 53 significant bits, and never goes
  below a representable value that the argument is not below.
\<close>

lemma fl64_neg: "fl64 (- r) = - fl64 r"
  by (simp add: fl64_def round_to_def Let_def)

lemma fl64_zero: "fl64 0 = 0"
  by (simp add: fl64_def round_to_def)

lemma fl64_pos_form:
  "0 < r \<Longrightarrow> fl64 r = of_int (rne (r / 2 powi (expo r - 52))) * 2 powi (expo r - 52)"
  by (simp add: fl64_def round_to_def Let_def)

lemma fl64_nonneg: "0 \<le> r \<Longrightarrow> 0 \<le> fl64 r"
proof (cases "r = 0")
  case True
  then show ?thesis by (simp add: fl64_zero)
next
  case False
  assume "0 \<le> r"
  with False have r: "0 < r" by simp
  have "0 \<le> rne (r / 2 powi (expo r - 52))"
    by (rule rne_nonneg) (simp add: r less_imp_le)
  then show ?thesis by (simp add: fl64_pos_form [OF r])
qed

lemma two_powi_split:
  assumes "e \<le> k"
  shows "(2::rat) powi k = 2 ^ nat (k - e) * 2 powi e"
proof -
  define j where "j = nat (k - e)"
  have k: "k = int j + e" using assms by (simp add: j_def)
  have "(2::rat) powi (int j + e) = 2 powi int j * 2 powi e" by (rule two_powi_add)
  also have "(2::rat) powi int j = 2 ^ j" by (rule power_int_of_nat)
  finally have "(2::rat) powi (int j + e) = 2 ^ j * 2 powi e" .
  then have "(2::rat) powi k = 2 ^ j * 2 powi e" by (simp only: k [symmetric])
  then show ?thesis by (simp only: j_def)
qed

lemma fl64_exact_pos:
  assumes m: "0 < m" "m < 2 ^ 53"
  shows "fl64 (of_int m * 2 powi k) = of_int m * 2 powi k"
proof -
  define r :: rat where "r = of_int m * 2 powi k"
  define e where "e = expo r"
  define u :: rat where "u = 2 powi (e - 52)"
  have r: "0 < r" using m(1) by (simp add: r_def)
  have u: "0 < u" by (simp add: u_def)
  have "2 powi e \<le> r" using expo_bounds [OF r] by (simp add: e_def)
  also have "r < 2 ^ 53 * 2 powi k"
  proof -
    have "(of_int m :: rat) < of_int (2 ^ 53)" using m(2) by (simp only: of_int_less_iff)
    then show ?thesis by (simp add: r_def)
  qed
  also have "(2::rat) ^ 53 * 2 powi k = 2 powi (53 + k)"
    by (simp add: two_powi_add)
  finally have "e < 53 + k" by (simp only: two_powi_less_iff)
  then have ek: "e - 52 \<le> k" by simp
  have "r = of_int m * (2 ^ nat (k - (e - 52)) * u)"
    unfolding r_def u_def using two_powi_split [OF ek] by simp
  then have q: "r / u = of_int (m * 2 ^ nat (k - (e - 52)))"
    using u by simp
  have "fl64 r = of_int (rne (r / u)) * u"
    using fl64_pos_form [OF r] by (simp add: u_def e_def)
  also have "\<dots> = r / u * u" unfolding q rne_of_int ..
  also have "\<dots> = r" using u by simp
  finally show ?thesis by (simp add: r_def)
qed

lemma fl64_exact:
  assumes "\<bar>m\<bar> < 2 ^ 53"
  shows "fl64 (of_int m * 2 powi k) = of_int m * 2 powi k"
proof -
  consider "m = 0" | "0 < m" | "m < 0" by linarith
  then show ?thesis
  proof cases
    case 1
    then show ?thesis by (simp add: fl64_zero)
  next
    case 2
    with assms show ?thesis by (simp add: fl64_exact_pos)
  next
    case 3
    with assms have "0 < - m" "- m < 2 ^ 53" by simp_all
    then have "fl64 (of_int (- m) * 2 powi k) = of_int (- m) * 2 powi k"
      by (rule fl64_exact_pos)
    then have "fl64 (- (of_int m * 2 powi k)) = - (of_int m * 2 powi k)" by simp
    then show ?thesis by (simp only: fl64_neg neg_equal_iff_equal)
  qed
qed

lemma fl64_lower:
  assumes m: "0 < m" "m < 2 ^ 53" and le: "of_int m * 2 powi k \<le> r"
  shows "of_int m * 2 powi k \<le> fl64 r"
proof -
  define t :: rat where "t = of_int m * 2 powi k"
  define e where "e = expo r"
  define u :: rat where "u = 2 powi (e - 52)"
  have t: "0 < t" using m(1) by (simp add: t_def)
  have tr: "t \<le> r" using le by (simp add: t_def)
  have r: "0 < r" using t tr by simp
  have u: "0 < u" by (simp add: u_def)
  have fl: "fl64 r = of_int (rne (r / u)) * u"
    using fl64_pos_form [OF r] by (simp add: u_def e_def)
  have "\<exists>M. t \<le> of_int M * u \<and> of_int M * u \<le> r"
  proof (cases "e - 52 \<le> k")
    case True
    have "t = of_int m * (2 ^ nat (k - (e - 52)) * u)"
      unfolding t_def u_def using two_powi_split [OF True] by simp
    then have "t = of_int (m * 2 ^ nat (k - (e - 52))) * u" by simp
    with tr show ?thesis by (intro exI [of _ "m * 2 ^ nat (k - (e - 52))"]) simp
  next
    case False
    then have ke: "53 + k \<le> e" by simp
    have "(of_int m :: rat) < of_int (2 ^ 53)" using m(2) by (simp only: of_int_less_iff)
    then have "t < 2 ^ 53 * 2 powi k" by (simp add: t_def)
    also have "(2::rat) ^ 53 * 2 powi k = 2 powi (53 + k)"
      by (simp add: two_powi_add)
    also have "\<dots> \<le> 2 powi e" using ke by (simp only: two_powi_le_iff)
    finally have t2: "t \<le> 2 powi e" by simp
    have "(2::rat) powi e = 2 powi (52 + (e - 52))" by simp
    also have "\<dots> = 2 ^ 52 * u" unfolding u_def by (subst two_powi_add) simp
    finally have pe: "(2::rat) powi e = of_int (2 ^ 52) * u" by simp
    have "2 powi e \<le> r" using expo_bounds [OF r] by (simp add: e_def)
    with t2 show ?thesis unfolding pe by (intro exI [of _ "2 ^ 52"]) simp
  qed
  then obtain M where M: "t \<le> of_int M * u" "of_int M * u \<le> r" by blast
  from M(2) u have "of_int M \<le> r / u" by (simp add: pos_le_divide_eq)
  then have "M \<le> \<lfloor>r / u\<rfloor>" by (simp only: le_floor_iff)
  also have "\<dots> \<le> rne (r / u)" by (rule floor_le_rne)
  finally have "(of_int M :: rat) \<le> of_int (rne (r / u))" by (simp only: of_int_le_iff)
  then have "of_int M * u \<le> of_int (rne (r / u)) * u"
    using u by (simp only: mult_le_cancel_right_pos)
  with M(1) show ?thesis unfolding fl t_def by simp
qed

subsection \<open>Evaluating the definitions on numerals\<close>

lemma floor_rat_numeral [simp]:
  "\<lfloor>numeral a / numeral b :: rat\<rfloor> = numeral a div numeral b"
  by (metis floor_divide_of_int_eq of_int_numeral)

lemmas fl64_eval = fl64_def round_to_def expo_def rne_def Let_def expo_up.simps expo_down.simps

lemma threshold_value: "threshold = 3242591731706757 / 36028797018963968"
  by (simp add: threshold_def fl64_eval)

lemma sq_dist_a: "sq_dist (1 / 2, 1 / 2) = 0"
  by (simp add: sq_dist_def center_def fl64_zero)

lemma sq_dist_b: "sq_dist (3 / 4, 3 / 4) = 1 / 8"
  by (simp add: sq_dist_def center_def fl64_eval)

lemma sq_dist_c: "sq_dist (1 / 2, 1 / 4) = 1 / 16"
  by (simp add: sq_dist_def center_def fl64_eval)

lemma sq_dist_boundary:
  "sq_dist (1 / 2, 3602879701896397 / 18014398509481984) = threshold"
  unfolding threshold_value by (simp add: sq_dist_def center_def fl64_eval)

lemma unit_float32_examples: "unit_float32 (1 / 2)" "unit_float32 (1 / 4)" "unit_float32 (3 / 4)"
  by (simp_all add: unit_float32_def is_float32_def fl64_eval)

lemma select_example:
  "select_A [(1 / 2, 1 / 4), (3 / 4, 3 / 4)] = [(1 / 2, 1 / 4)]"
  "select_B [(1 / 2, 1 / 4), (3 / 4, 3 / 4)] = [(3 / 4, 3 / 4)]"
  by (simp_all add: select_A_filter select_B_filter sq_dist_b sq_dist_c threshold_value)

section \<open>The computed comparison agrees with the exact one\<close>

text \<open>
  A \<^verbatim>\<open>float32\<close> coordinate of \<open>[1/8, 1]\<close> is a multiple of \<open>2 ^ -26\<close>; then the
  difference, both squares and their sum are computed without rounding error, and no
  multiple of \<open>2 ^ -52\<close> lies between the literal \<^verbatim>\<open>.09\<close> and \<open>9 / 100\<close>. A coordinate
  below \<open>1/8\<close> puts the point at squared distance \<open>9 / 64\<close> or more, computed or exact.
\<close>

lemma float32_grid:
  assumes f: "is_float32 x" and x: "1 / 8 \<le> x"
  shows "\<exists>X. x = of_int X * 2 powi (- 26)"
proof -
  have pos: "0 < x" using x by simp
  define e where "e = expo x"
  have "(2::rat) powi (- 3) \<le> x" using x by simp
  then have e: "- 3 \<le> e" unfolding e_def by (rule expo_ge [OF pos])
  define q where "q = x / 2 powi (e - 23)"
  have "max e (- 126) = e" using e by simp
  with f pos have q: "of_int \<lfloor>q\<rfloor> = q"
    by (simp add: is_float32_def Let_def e_def [symmetric] q_def)
  have "x = q * 2 powi (e - 23)" by (simp add: q_def)
  also have "(2::rat) powi (e - 23) = 2 ^ nat (e - 23 - (- 26)) * 2 powi (- 26)"
    by (rule two_powi_split) (use e in simp)
  finally have "x = of_int (\<lfloor>q\<rfloor> * 2 ^ nat (e - 23 - (- 26))) * 2 powi (- 26)"
    by (simp add: q)
  then show ?thesis by blast
qed

lemma centred_grid:
  fixes x :: rat
  assumes x: "x = of_int X * 2 powi (- 26)" and r: "0 \<le> x" "x \<le> 1"
  shows "\<exists>a. x - 1 / 2 = of_int a * 2 powi (- 26) \<and> \<bar>a\<bar> \<le> 2 ^ 25"
proof -
  have "(0::rat) \<le> of_int X" using r(1) unfolding x by (simp add: zero_le_mult_iff)
  then have X0: "0 \<le> X" by (simp only: of_int_0_le_iff)
  have "(of_int X :: rat) \<le> of_int (2 ^ 26)" using r(2) unfolding x by simp
  then have X1: "X \<le> 2 ^ 26" by (simp only: of_int_le_iff)
  have "x - 1 / 2 = of_int (X - 2 ^ 25) * 2 powi (- 26)" unfolding x by simp
  moreover have "\<bar>X - 2 ^ 25\<bar> \<le> 2 ^ 25" using X0 X1 by simp
  ultimately show ?thesis by blast
qed

lemma square_bound:
  fixes a :: int
  assumes "\<bar>a\<bar> \<le> 2 ^ 25"
  shows "0 \<le> a * a \<and> a * a \<le> 2 ^ 50"
proof -
  have "\<bar>a\<bar> * \<bar>a\<bar> \<le> 2 ^ 25 * 2 ^ 25"
    by (rule mult_mono) (use assms in simp_all)
  then show ?thesis by (simp add: abs_mult_self_eq)
qed

lemma near_exact:
  assumes x: "x = of_int X * 2 powi (- 26)" "0 \<le> x" "x \<le> 1"
    and y: "y = of_int Y * 2 powi (- 26)" "0 \<le> y" "y \<le> 1"
  shows "\<exists>N. 0 \<le> N \<and> sq_dist (x, y) = of_int N * 2 powi (- 52)
            \<and> sq_dist_exact (x, y) = of_int N * 2 powi (- 52)"
proof -
  from centred_grid [OF x] obtain a
    where a: "x - 1 / 2 = of_int a * 2 powi (- 26)" "\<bar>a\<bar> \<le> 2 ^ 25" by blast
  from centred_grid [OF y] obtain b
    where b: "y - 1 / 2 = of_int b * 2 powi (- 26)" "\<bar>b\<bar> \<le> 2 ^ 25" by blast
  note sa = square_bound [OF a(2)] and sb = square_bound [OF b(2)]
  have dx: "fl64 (x - 1 / 2) = x - 1 / 2"
    unfolding a(1) by (rule fl64_exact) (use a(2) in simp)
  have dy: "fl64 (y - 1 / 2) = y - 1 / 2"
    unfolding b(1) by (rule fl64_exact) (use b(2) in simp)
  have xx: "(x - 1 / 2) * (x - 1 / 2) = of_int (a * a) * 2 powi (- 52)"
    unfolding a(1) by simp
  have yy: "(y - 1 / 2) * (y - 1 / 2) = of_int (b * b) * 2 powi (- 52)"
    unfolding b(1) by simp
  have fxx: "fl64 ((x - 1 / 2) * (x - 1 / 2)) = of_int (a * a) * 2 powi (- 52)"
    unfolding xx by (rule fl64_exact) (use sa in simp)
  have fyy: "fl64 ((y - 1 / 2) * (y - 1 / 2)) = of_int (b * b) * 2 powi (- 52)"
    unfolding yy by (rule fl64_exact) (use sb in simp)
  have s: "of_int (a * a) * 2 powi (- 52) + of_int (b * b) * 2 powi (- 52)
      = (of_int (a * a + b * b) :: rat) * 2 powi (- 52)"
    by (simp add: algebra_simps)
  have fs: "fl64 (of_int (a * a + b * b) * 2 powi (- 52)) = of_int (a * a + b * b) * 2 powi (- 52)"
    by (rule fl64_exact) (use sa sb in simp)
  have 1: "sq_dist (x, y) = of_int (a * a + b * b) * 2 powi (- 52)"
    by (simp only: sq_dist_def center_def Let_def fst_conv snd_conv dx dy fxx fyy s fs)
  have 2: "sq_dist_exact (x, y) = of_int (a * a + b * b) * 2 powi (- 52)"
    by (simp only: sq_dist_exact_def fst_conv snd_conv power2_eq_square xx yy s)
  show ?thesis using 1 2 sa sb by (intro exI [of _ "a * a + b * b"]) simp
qed

lemma far_square:
  assumes "0 \<le> x" "x < 1 / 8"
  shows "9 / 64 \<le> fl64 (fl64 (x - 1 / 2) * fl64 (x - 1 / 2))"
proof -
  have "of_int 3 * 2 powi (- 3) \<le> 1 / 2 - x" using assms by simp
  then have "of_int 3 * 2 powi (- 3) \<le> fl64 (1 / 2 - x)"
    by (rule fl64_lower [rotated 2]) simp_all
  then have l: "3 / 8 \<le> fl64 (1 / 2 - x)" by simp
  have "fl64 (x - 1 / 2) = - fl64 (1 / 2 - x)"
    using fl64_neg [of "1 / 2 - x"] by simp
  then have sq: "fl64 (x - 1 / 2) * fl64 (x - 1 / 2) = fl64 (1 / 2 - x) * fl64 (1 / 2 - x)"
    by simp
  have "(3 / 8) * (3 / 8) \<le> fl64 (1 / 2 - x) * fl64 (1 / 2 - x)"
    by (rule mult_mono) (use l in simp_all)
  then have "of_int 9 * 2 powi (- 6) \<le> fl64 (x - 1 / 2) * fl64 (x - 1 / 2)"
    unfolding sq by simp
  then have "of_int 9 * 2 powi (- 6) \<le> fl64 (fl64 (x - 1 / 2) * fl64 (x - 1 / 2))"
    by (rule fl64_lower [rotated 2]) simp_all
  then show ?thesis by simp
qed

lemma far_sum:
  assumes "9 / 64 \<le> s" "0 \<le> t"
  shows "9 / 64 \<le> fl64 (s + t)" "9 / 64 \<le> fl64 (t + s)"
proof -
  have "of_int 9 * 2 powi (- 6) \<le> s + t" using assms by simp
  then have "of_int 9 * 2 powi (- 6) \<le> fl64 (s + t)"
    by (rule fl64_lower [rotated 2]) simp_all
  then show "9 / 64 \<le> fl64 (s + t)" by simp
  then show "9 / 64 \<le> fl64 (t + s)" by (simp add: add.commute)
qed

lemma far_sq_dist:
  assumes "(0 \<le> x \<and> x < 1 / 8) \<or> (0 \<le> y \<and> y < 1 / 8)"
  shows "9 / 64 \<le> sq_dist (x, y)"
proof -
  have nx: "0 \<le> fl64 (fl64 (x - 1 / 2) * fl64 (x - 1 / 2))"
    and ny: "0 \<le> fl64 (fl64 (y - 1 / 2) * fl64 (y - 1 / 2))"
    by (rule fl64_nonneg, simp)+
  from assms show ?thesis
  proof
    assume "0 \<le> x \<and> x < 1 / 8"
    then have "9 / 64 \<le> fl64 (fl64 (x - 1 / 2) * fl64 (x - 1 / 2))"
      using far_square [of x] by blast
    from far_sum(1) [OF this ny] show ?thesis
      by (simp add: sq_dist_def center_def Let_def)
  next
    assume "0 \<le> y \<and> y < 1 / 8"
    then have "9 / 64 \<le> fl64 (fl64 (y - 1 / 2) * fl64 (y - 1 / 2))"
      using far_square [of y] by blast
    from far_sum(2) [OF this nx] show ?thesis
      by (simp add: sq_dist_def center_def Let_def)
  qed
qed

lemma far_sq_dist_exact:
  assumes "(0 \<le> x \<and> x < 1 / 8) \<or> (0 \<le> y \<and> y < 1 / 8)"
  shows "9 / 64 \<le> sq_dist_exact (x, y)"
proof -
  have sq: "9 / 64 \<le> (z - 1 / 2)\<^sup>2" if "0 \<le> z \<and> z < 1 / 8" for z :: rat
  proof -
    have "(3 / 8) * (3 / 8) \<le> (1 / 2 - z) * (1 / 2 - z)"
      by (rule mult_mono) (use that in simp_all)
    also have "\<dots> = (z - 1 / 2)\<^sup>2" by (simp add: power2_eq_square algebra_simps)
    finally show ?thesis by simp
  qed
  from assms show ?thesis
  proof
    assume "0 \<le> x \<and> x < 1 / 8"
    from sq [OF this] have "9 / 64 + 0 \<le> (x - 1 / 2)\<^sup>2 + (y - 1 / 2)\<^sup>2"
      by (intro add_mono) simp_all
    then show ?thesis by (simp add: sq_dist_exact_def)
  next
    assume "0 \<le> y \<and> y < 1 / 8"
    from sq [OF this] have "0 + 9 / 64 \<le> (x - 1 / 2)\<^sup>2 + (y - 1 / 2)\<^sup>2"
      by (intro add_mono) simp_all
    then show ?thesis by (simp add: sq_dist_exact_def)
  qed
qed

lemma grid_compare:
  fixes N :: int
  shows "(of_int N * 2 powi (- 52) < (3242591731706757 / 36028797018963968 :: rat))
     = (of_int N * 2 powi (- 52) < (9 / 100 :: rat))"
proof -
  have "(of_int N * 2 powi (- 52) < (3242591731706757 / 36028797018963968 :: rat))
      = ((of_int (N * 8) :: rat) < of_int 3242591731706757)"
    by (simp add: mult.commute)
  also have "\<dots> = (N * 8 < 3242591731706757)" by (simp only: of_int_less_iff)
  also have "\<dots> = (N \<le> 405323966463344)" by linarith
  also have "\<dots> = (N * 100 < 40532396646334464)" by linarith
  also have "\<dots> = ((of_int (N * 100) :: rat) < of_int 40532396646334464)"
    by (simp only: of_int_less_iff)
  also have "\<dots> = (of_int N * 2 powi (- 52) < (9 / 100 :: rat))"
    by (simp add: mult.commute)
  finally show ?thesis .
qed

lemma mask_agrees:
  assumes "unit_float32 x" "unit_float32 y"
  shows "(sq_dist (x, y) < threshold) = (sq_dist_exact (x, y) < 9 / 100)"
proof (cases "x < 1 / 8 \<or> y < 1 / 8")
  case True
  with assms have far: "(0 \<le> x \<and> x < 1 / 8) \<or> (0 \<le> y \<and> y < 1 / 8)"
    by (auto simp add: unit_float32_def)
  have "threshold < 9 / 64" by (simp add: threshold_value)
  with far_sq_dist [OF far] have "\<not> sq_dist (x, y) < threshold" by simp
  moreover from far_sq_dist_exact [OF far] have "\<not> sq_dist_exact (x, y) < 9 / 100" by simp
  ultimately show ?thesis by simp
next
  case False
  from assms have u: "is_float32 x" "0 \<le> x" "x \<le> 1" "is_float32 y" "0 \<le> y" "y \<le> 1"
    by (simp_all add: unit_float32_def)
  from False have "1 / 8 \<le> x" "1 / 8 \<le> y" by simp_all
  from float32_grid [OF u(1) this(1)] float32_grid [OF u(4) this(2)]
  obtain X Y where g: "x = of_int X * 2 powi (- 26)" "y = of_int Y * 2 powi (- 26)"
    by blast
  from near_exact [OF g(1) u(2,3) g(2) u(5,6)]
  obtain N where "sq_dist (x, y) = of_int N * 2 powi (- 52)"
    "sq_dist_exact (x, y) = of_int N * 2 powi (- 52)"
    by blast
  then show ?thesis by (simp only: threshold_value grid_compare)
qed

lemma grid_off_boundary:
  fixes N :: int
  shows "of_int N * 2 powi (- 52) \<noteq> (3242591731706757 / 36028797018963968 :: rat)"
    and "of_int N * 2 powi (- 52) \<noteq> (9 / 100 :: rat)"
proof -
  consider "N \<le> 405323966463344" | "405323966463345 \<le> N" by linarith
  then have "N * 8 \<noteq> 3242591731706757 \<and> N * 100 \<noteq> 40532396646334464"
    by cases simp_all
  then have "(of_int (N * 8) :: rat) \<noteq> of_int 3242591731706757"
    and "(of_int (N * 100) :: rat) \<noteq> of_int 40532396646334464"
    by (simp_all only: of_int_eq_iff simp_thms)
  then show "of_int N * 2 powi (- 52) \<noteq> (3242591731706757 / 36028797018963968 :: rat)"
    and "of_int N * 2 powi (- 52) \<noteq> (9 / 100 :: rat)"
    by (simp_all add: mult.commute)
qed

lemma sample_off_boundary:
  assumes "unit_float32 x" "unit_float32 y"
  shows "sq_dist (x, y) \<noteq> threshold \<and> sq_dist_exact (x, y) \<noteq> 9 / 100"
proof (cases "x < 1 / 8 \<or> y < 1 / 8")
  case True
  with assms have far: "(0 \<le> x \<and> x < 1 / 8) \<or> (0 \<le> y \<and> y < 1 / 8)"
    by (auto simp add: unit_float32_def)
  have "threshold < 9 / 64" by (simp add: threshold_value)
  with far_sq_dist [OF far] far_sq_dist_exact [OF far] show ?thesis by simp
next
  case False
  from assms have u: "is_float32 x" "0 \<le> x" "x \<le> 1" "is_float32 y" "0 \<le> y" "y \<le> 1"
    by (simp_all add: unit_float32_def)
  from False have "1 / 8 \<le> x" "1 / 8 \<le> y" by simp_all
  from float32_grid [OF u(1) this(1)] float32_grid [OF u(4) this(2)]
  obtain X Y where g: "x = of_int X * 2 powi (- 26)" "y = of_int Y * 2 powi (- 26)"
    by blast
  from near_exact [OF g(1) u(2,3) g(2) u(5,6)]
  obtain N where "sq_dist (x, y) = of_int N * 2 powi (- 52)"
    "sq_dist_exact (x, y) = of_int N * 2 powi (- 52)"
    by blast
  then show ?thesis by (simp only: threshold_value grid_off_boundary simp_thms)
qed

lemma set_fst_balanced: "p \<in> set (fst (balanced d)) \<Longrightarrow> p \<in> set d \<and> sq_dist p < threshold"
  by (auto simp add: fst_balanced select_A_filter dest: in_set_takeD)

lemma set_snd_balanced: "p \<in> set (snd (balanced d)) \<Longrightarrow> p \<in> set d \<and> threshold \<le> sq_dist p"
  by (auto simp add: snd_balanced select_B_filter dest: in_set_takeD)

lemma sample_point:
  assumes "sample_array n d" "p \<in> set d"
  shows "(sq_dist p < threshold) = (sq_dist_exact p < 9 / 100)"
proof -
  from assms have "unit_float32 (fst p)" "unit_float32 (snd p)"
    by (simp_all add: sample_array_def list_all_iff)
  from mask_agrees [OF this] show ?thesis by simp
qed

section \<open>What the script does\<close>

lemma script_length: "length (script x) = 44"
  by (simp add: script_def)

lemma final_ltnw_calls:
  "ltnw_calls (trace (final x)) =
    [Predicate ''A'' 2, Predicate ''B'' 2,
     Variable ''?data_A'' (fst (balanced (uniform_first x))),
     Variable ''?data_B'' (snd (balanced (uniform_first x))),
     Variable ''?data'' (uniform_first x),
     Formula ''forall ?data_A: A(?data_A)'',
     Formula ''forall ?data_B: B(?data_B)'',
     Formula ''forall ?data: A(?data) -> ~B(?data)'',
     Formula ''forall ?data: ~B(?data) -> A(?data)'',
     Initialize_knowledgebase (fl64 (1 / 10)),
     Train 20000,
     Ask ''A(?data)'', Ask ''B(?data)'',
     Variable ''?data_test'' (uniform_second x),
     Ask ''A(?data_test)'', Ask ''B(?data_test)'',
     Constant ''a'' [1 / 2, 1 / 2], Constant ''b'' [3 / 4, 3 / 4],
     Ask ''A(a)'', Ask ''A(b)'', Ask ''B(a)'', Ask ''B(b)'']"
  by (simp add: final_def run_def script_def initial_def emit_def ask_def print_ask_def
      scatter_def max_iterations_def balanced_def select_A_def select_B_def)

lemma final_data_A: "data_A (final x) = fst (balanced (uniform_first x))"
  by (simp add: final_def run_def script_def initial_def emit_def ask_def print_ask_def
      scatter_def balanced_def select_A_def select_B_def)

lemma final_data_B: "data_B (final x) = snd (balanced (uniform_first x))"
  by (simp add: final_def run_def script_def initial_def emit_def ask_def print_ask_def
      scatter_def balanced_def select_A_def select_B_def)

lemma after_line_16:
  "data_A (run (take 4 (script x)) initial) = fst (balanced (uniform_first x))"
  "data_B (run (take 4 (script x)) initial) = snd (balanced (uniform_first x))"
  by (simp_all add: run_def script_def initial_def balanced_def select_A_def select_B_def)

lemma run_Cons: "run (f # fs) s = run fs (f s)"
  by (simp add: run_def)

lemma run_preserves_data:
  "(\<And>f s. f \<in> set fs \<Longrightarrow> data (f s) = data s) \<Longrightarrow> data (run fs s) = data s"
proof (induction fs arbitrary: s)
  case Nil
  then show ?case by (simp add: run_def)
next
  case (Cons f fs)
  have "data (run fs (f s)) = data (f s)"
    by (rule Cons.IH) (simp add: Cons.prems)
  then show ?case by (simp add: run_Cons Cons.prems)
qed

lemma later_steps_keep_data:
  "f \<in> set (tl (script x)) \<Longrightarrow> data (f s) = data s"
  by (auto simp add: script_def emit_def ask_def print_ask_def scatter_def)

section \<open>The balanced partition\<close>

text \<open>
  C1: after the filter-and-truncate step of lines 14 to 16 the two class subsets have
  the same number of rows, for every sample array: as a function of the array, and for
  the names \<^verbatim>\<open>data_A\<close> and \<^verbatim>\<open>data_B\<close> of the script.
\<close>

theorem balanced_equal_length:
  "length (fst (balanced d)) = length (snd (balanced d))
   \<and> length (data_A (final x)) = length (data_B (final x))"
  by (simp add: final_data_A final_data_B fst_balanced snd_balanced)

text \<open>
  C2: every row of \<^verbatim>\<open>data_A\<close> has computed squared distance below the literal
  \<^verbatim>\<open>.09\<close>, every row of \<^verbatim>\<open>data_B\<close> has it at or above; a row whose computed squared
  distance is the literal itself is selected for class B and not for class A. For a
  generated array (\<^verbatim>\<open>float32\<close> coordinates of the unit interval) the same holds of the
  exact squared distance and the exact bound \<open>9 / 100\<close>. No \<^verbatim>\<open>float32\<close> sample meets
  the bound itself, computed or exact, so the boundary case is shown below on the
  \<^verbatim>\<open>float64\<close> point \<open>(0.5, 0.2)\<close>, whose computed squared distance is the literal.
\<close>

theorem class_membership:
  "(\<forall>p \<in> set (fst (balanced d)). sq_dist p < threshold)
   \<and> (\<forall>p \<in> set (snd (balanced d)). threshold \<le> sq_dist p)
   \<and> (\<forall>p \<in> set d. sq_dist p = threshold \<longrightarrow>
         p \<in> set (select_B d) \<and> p \<notin> set (select_A d) \<and> p \<notin> set (fst (balanced d)))
   \<and> (sample_array n d \<longrightarrow>
         (\<forall>p \<in> set (fst (balanced d)). sq_dist_exact p < 9 / 100)
         \<and> (\<forall>p \<in> set (snd (balanced d)). 9 / 100 \<le> sq_dist_exact p))"
proof -
  have 1: "\<forall>p \<in> set (fst (balanced d)). sq_dist p < threshold"
    using set_fst_balanced by blast
  have 2: "\<forall>p \<in> set (snd (balanced d)). threshold \<le> sq_dist p"
    using set_snd_balanced by blast
  have 3: "\<forall>p \<in> set d. sq_dist p = threshold \<longrightarrow>
      p \<in> set (select_B d) \<and> p \<notin> set (select_A d) \<and> p \<notin> set (fst (balanced d))"
  proof (intro ballI impI)
    fix p assume p: "p \<in> set d" "sq_dist p = threshold"
    have "p \<notin> set (fst (balanced d))"
      using set_fst_balanced [of p d] p(2) by auto
    with p show "p \<in> set (select_B d) \<and> p \<notin> set (select_A d) \<and> p \<notin> set (fst (balanced d))"
      by (simp add: select_A_filter select_B_filter)
  qed
  have 4: "sq_dist_exact p < 9 / 100" if "sample_array n d" "p \<in> set (fst (balanced d))" for p
    using that set_fst_balanced [of p d] sample_point [of n d p] by simp
  have 5: "9 / 100 \<le> sq_dist_exact p" if "sample_array n d" "p \<in> set (snd (balanced d))" for p
    using that set_snd_balanced [of p d] sample_point [of n d p] by (simp add: not_less [symmetric])
  show ?thesis using 1 2 3 4 5 by blast
qed

theorem class_membership_witness:
  "sample_array 2 [(1 / 2, 1 / 4), (3 / 4, 3 / 4)]
   \<and> fst (balanced [(1 / 2, 1 / 4), (3 / 4, 3 / 4)]) = [(1 / 2, 1 / 4)]
   \<and> snd (balanced [(1 / 2, 1 / 4), (3 / 4, 3 / 4)]) = [(3 / 4, 3 / 4)]
   \<and> sq_dist (1 / 2, 1 / 4) < threshold \<and> sq_dist_exact (1 / 2, 1 / 4) < 9 / 100
   \<and> threshold \<le> sq_dist (3 / 4, 3 / 4) \<and> 9 / 100 \<le> sq_dist_exact (3 / 4, 3 / 4)
   \<and> sq_dist (1 / 2, 3602879701896397 / 18014398509481984) = threshold
   \<and> (1 / 2, 3602879701896397 / 18014398509481984)
       \<in> set (select_B [(1 / 2, 3602879701896397 / 18014398509481984)])
   \<and> (1 / 2, 3602879701896397 / 18014398509481984)
       \<notin> set (select_A [(1 / 2, 3602879701896397 / 18014398509481984)])"
proof -
  let ?d = "[(1 / 2, 1 / 4), (3 / 4, 3 / 4)] :: array"
  let ?b = "(1 / 2, 3602879701896397 / 18014398509481984) :: point"
  have s: "sample_array 2 ?d"
    by (simp add: sample_array_def unit_float32_examples)
  have f: "fst (balanced ?d) = [(1 / 2, 1 / 4)]" "snd (balanced ?d) = [(3 / 4, 3 / 4)]"
    by (simp_all add: fst_balanced snd_balanced select_example)
  from class_membership [of ?d 2] s f
  have m: "sq_dist (1 / 2, 1 / 4) < threshold" "sq_dist_exact (1 / 2, 1 / 4) < 9 / 100"
    "threshold \<le> sq_dist (3 / 4, 3 / 4)" "9 / 100 \<le> sq_dist_exact (3 / 4, 3 / 4)"
    by simp_all
  from class_membership [of "[?b]" 1] sq_dist_boundary
  have b: "?b \<in> set (select_B [?b])" "?b \<notin> set (select_A [?b])"
    by simp_all
  show ?thesis using s f m b sq_dist_boundary by simp
qed

text \<open>
  C3: the two balanced subsets together have at most as many rows as the array; the sum
  is twice the smaller class size before truncation, and it is the length of the array
  exactly when the two classes had the same size before truncation.
\<close>

theorem balanced_length_sum:
  "length (fst (balanced d)) + length (snd (balanced d)) \<le> length d
   \<and> length (fst (balanced d)) + length (snd (balanced d))
       = 2 * min (length (select_A d)) (length (select_B d))
   \<and> (length (fst (balanced d)) + length (snd (balanced d)) = length d
       \<longleftrightarrow> length (select_A d) = length (select_B d))"
  using length_select_sum [of d] by (simp add: fst_balanced snd_balanced) linarith

text \<open>
  C4: each balanced subset is the subsequence of the array selected by its predicate, cut
  to the smaller class size: a prefix of the filtered array, in the order of the array.
\<close>

theorem balanced_prefix_order:
  "fst (balanced d) = take (min (length (filter (\<lambda>p. sq_dist p < threshold) d))
        (length (filter (\<lambda>p. threshold \<le> sq_dist p) d))) (filter (\<lambda>p. sq_dist p < threshold) d)
   \<and> snd (balanced d) = take (min (length (filter (\<lambda>p. sq_dist p < threshold) d))
        (length (filter (\<lambda>p. threshold \<le> sq_dist p) d))) (filter (\<lambda>p. threshold \<le> sq_dist p) d)
   \<and> prefix (fst (balanced d)) (filter (\<lambda>p. sq_dist p < threshold) d)
   \<and> prefix (snd (balanced d)) (filter (\<lambda>p. threshold \<le> sq_dist p) d)
   \<and> subseq (fst (balanced d)) d \<and> subseq (snd (balanced d)) d"
proof -
  let ?A = "filter (\<lambda>p. sq_dist p < threshold) d"
  let ?B = "filter (\<lambda>p. threshold \<le> sq_dist p) d"
  let ?m = "min (length ?A) (length ?B)"
  have a: "fst (balanced d) = take ?m ?A"
    by (simp add: fst_balanced select_A_filter select_B_filter)
  have b: "snd (balanced d) = take ?m ?B"
    by (simp add: snd_balanced select_A_filter select_B_filter)
  have pa: "prefix (take ?m ?A) ?A" and pb: "prefix (take ?m ?B) ?B"
    by (rule take_is_prefix)+
  have sa: "subseq (take ?m ?A) d"
    by (rule subseq_order.trans [OF prefix_imp_subseq [OF pa] subseq_filter_left])
  have sb: "subseq (take ?m ?B) d"
    by (rule subseq_order.trans [OF prefix_imp_subseq [OF pb] subseq_filter_left])
  show ?thesis using a b pa pb sa sb by simp
qed

text \<open>
  C9: when the circle captures no row or every row, both balanced subsets are empty.
\<close>

theorem balanced_degenerate:
  assumes "length (select_A d) = 0 \<or> length (select_A d) = length d"
  shows "fst (balanced d) = [] \<and> snd (balanced d) = []"
proof -
  from assms length_select_sum [of d]
  have "length (select_A d) = 0 \<or> length (select_B d) = 0" by linarith
  then show ?thesis by (auto simp add: fst_balanced snd_balanced)
qed

theorem balanced_degenerate_witness:
  "length (select_A [(1 / 2, 1 / 2), (1 / 2, 1 / 4)]) = length [(1 / 2, 1 / 2), (1 / 2, 1 / 4 :: rat)]
   \<and> fst (balanced [(1 / 2, 1 / 2), (1 / 2, 1 / 4)]) = []
   \<and> snd (balanced [(1 / 2, 1 / 2), (1 / 2, 1 / 4)]) = []
   \<and> length (select_A [(3 / 4, 3 / 4)]) = 0
   \<and> fst (balanced [(3 / 4, 3 / 4)]) = [] \<and> snd (balanced [(3 / 4, 3 / 4)]) = []"
proof -
  have a: "length (select_A [(1 / 2, 1 / 2), (1 / 2, 1 / 4)])
      = length [(1 / 2, 1 / 2), (1 / 2, 1 / 4 :: rat)]"
    by (simp add: select_A_filter sq_dist_a sq_dist_c threshold_value)
  have b: "length (select_A [(3 / 4, 3 / 4)]) = 0"
    by (simp add: select_A_filter sq_dist_b threshold_value)
  from balanced_degenerate [of "[(1 / 2, 1 / 2), (1 / 2, 1 / 4)]"] a
    balanced_degenerate [of "[(3 / 4, 3 / 4)]"] b
  show ?thesis by simp
qed

text \<open>
  C7: the partition depends on the drawn array only. Two runs of the script that draw the
  same first array bind \<^verbatim>\<open>data_A\<close> and \<^verbatim>\<open>data_B\<close> to the same arrays after line 16 and
  at the end, whatever the second draw and the wrapper's answers are.
\<close>

theorem partition_deterministic:
  assumes "uniform_first x1 = uniform_first x2"
  shows "data_A (run (take 4 (script x1)) initial) = data_A (run (take 4 (script x2)) initial)
       \<and> data_B (run (take 4 (script x1)) initial) = data_B (run (take 4 (script x2)) initial)
       \<and> data_A (final x1) = data_A (final x2) \<and> data_B (final x1) = data_B (final x2)"
  using assms by (simp add: after_line_16 final_data_A final_data_B)

theorem partition_deterministic_witness:
  "uniform_first \<lparr>uniform_first = [(1 / 2, 1 / 4), (3 / 4, 3 / 4)], uniform_second = [],
       train_result = 1, ask_result = (\<lambda>q. [])\<rparr>
     = uniform_first \<lparr>uniform_first = [(1 / 2, 1 / 4), (3 / 4, 3 / 4)],
       uniform_second = [(1 / 2, 1 / 2)], train_result = 1 / 2, ask_result = (\<lambda>q. [1])\<rparr>
   \<and> data_A (final \<lparr>uniform_first = [(1 / 2, 1 / 4), (3 / 4, 3 / 4)], uniform_second = [],
       train_result = 1, ask_result = (\<lambda>q. [])\<rparr>)
     = data_A (final \<lparr>uniform_first = [(1 / 2, 1 / 4), (3 / 4, 3 / 4)],
       uniform_second = [(1 / 2, 1 / 2)], train_result = 1 / 2, ask_result = (\<lambda>q. [1])\<rparr>)
   \<and> data_B (final \<lparr>uniform_first = [(1 / 2, 1 / 4), (3 / 4, 3 / 4)], uniform_second = [],
       train_result = 1, ask_result = (\<lambda>q. [])\<rparr>)
     = data_B (final \<lparr>uniform_first = [(1 / 2, 1 / 4), (3 / 4, 3 / 4)],
       uniform_second = [(1 / 2, 1 / 2)], train_result = 1 / 2, ask_result = (\<lambda>q. [1])\<rparr>)"
  using partition_deterministic
    [of "\<lparr>uniform_first = [(1 / 2, 1 / 4), (3 / 4, 3 / 4)], uniform_second = [],
       train_result = 1, ask_result = (\<lambda>q. [])\<rparr>"
      "\<lparr>uniform_first = [(1 / 2, 1 / 4), (3 / 4, 3 / 4)],
       uniform_second = [(1 / 2, 1 / 2)], train_result = 1 / 2, ask_result = (\<lambda>q. [1])\<rparr>"]
  by simp

section \<open>Registrations, axioms and constants\<close>

text \<open>
  C5: before its first formula the script makes exactly five registrations: the
  predicates \<open>A\<close> and \<open>B\<close>, each over the two features of a point, and the variables
  \<open>?data_A\<close>, \<open>?data_B\<close> and \<open>?data\<close>, bound to the balanced subsets and to the array.
  Every formula and query applies a predicate to one argument.
\<close>

theorem registrations_before_axioms:
  "takeWhile (\<lambda>c. \<not> is_formula c) (ltnw_calls (trace (final x))) =
     [Predicate ''A'' 2, Predicate ''B'' 2,
      Variable ''?data_A'' (data_A (final x)),
      Variable ''?data_B'' (data_B (final x)),
      Variable ''?data'' (data (final x))]
   \<and> data_A (final x) = fst (balanced (uniform_first x))
   \<and> data_B (final x) = snd (balanced (uniform_first x))
   \<and> data (final x) = uniform_first x
   \<and> map arg_counts (formulas (ltnw_calls (trace (final x))))
       = [[1], [1], [1, 1], [1, 1]]
   \<and> map arg_counts (queries (ltnw_calls (trace (final x))))
       = [[1], [1], [1], [1], [1], [1], [1], [1]]"
proof -
  have d: "data (final x) = uniform_first x"
    by (simp add: final_def run_def script_def initial_def emit_def ask_def print_ask_def
        scatter_def)
  show ?thesis
    unfolding final_ltnw_calls final_data_A final_data_B d
    by (simp add: arg_counts_def)
qed

text \<open>
  C6: the script states four formulas and no other, in this order: membership of
  \<open>?data_A\<close> in \<open>A\<close>, membership of \<open>?data_B\<close> in \<open>B\<close>, exclusion and its converse.
\<close>

theorem four_axioms:
  "formulas (ltnw_calls (trace (final x))) =
     [''forall ?data_A: A(?data_A)'', ''forall ?data_B: B(?data_B)'',
      ''forall ?data: A(?data) -> ~B(?data)'', ''forall ?data: ~B(?data) -> A(?data)'']"
  unfolding final_ltnw_calls by simp

text \<open>
  C8: after line 13 the name \<^verbatim>\<open>data\<close> holds the drawn array at every later point of
  the script. No statement assigns it again or writes into an array; the selections of
  lines 14 and 15 build new arrays, and the wrapper and the plots receive values.
\<close>

theorem data_never_modified:
  assumes "0 < k"
  shows "data (run (take k (script x)) initial) = uniform_first x"
proof -
  obtain j where k: "k = Suc j" using assms by (cases k) simp_all
  have s: "script x = (\<lambda>s. s\<lparr>data := uniform_first x\<rparr>) # tl (script x)"
    by (simp add: script_def)
  have "take k (script x) = (\<lambda>s. s\<lparr>data := uniform_first x\<rparr>) # take j (tl (script x))"
    by (subst s) (simp add: k)
  then have "data (run (take k (script x)) initial)
      = data (run (take j (tl (script x))) (initial\<lparr>data := uniform_first x\<rparr>))"
    by (simp add: run_Cons)
  also have "\<dots> = data (initial\<lparr>data := uniform_first x\<rparr>)"
    by (rule run_preserves_data) (auto dest: in_set_takeD later_steps_keep_data)
  finally show ?thesis by simp
qed

theorem data_never_modified_witness:
  "(0::nat) < 44
   \<and> data (run (take 44 (script \<lparr>uniform_first = [(1 / 2, 1 / 4), (3 / 4, 3 / 4)],
        uniform_second = [], train_result = 1, ask_result = (\<lambda>q. [])\<rparr>)) initial)
     = [(1 / 2, 1 / 4), (3 / 4, 3 / 4)]"
  using data_never_modified [of 44 "\<lparr>uniform_first = [(1 / 2, 1 / 4), (3 / 4, 3 / 4)],
        uniform_second = [], train_result = 1, ask_result = (\<lambda>q. [])\<rparr>"]
  by simp

text \<open>
  C10: the constants are \<open>a = (1/2, 1/2)\<close>, the centre, at squared distance \<open>0\<close>, inside
  the circle, and \<open>b = (3/4, 3/4)\<close> at squared distance \<open>1/8\<close>, outside it; the computed
  values are the exact ones.
\<close>

theorem probe_constants:
  "constants (ltnw_calls (trace (final x))) = [(''a'', [1 / 2, 1 / 2]), (''b'', [3 / 4, 3 / 4])]
   \<and> center = (1 / 2, 1 / 2)
   \<and> sq_dist_exact (1 / 2, 1 / 2) = 0 \<and> sq_dist_exact (1 / 2, 1 / 2) < 9 / 100
   \<and> sq_dist_exact (3 / 4, 3 / 4) = 1 / 8 \<and> 9 / 100 \<le> sq_dist_exact (3 / 4, 3 / 4)
   \<and> sq_dist (1 / 2, 1 / 2) = 0 \<and> sq_dist (1 / 2, 1 / 2) < threshold
   \<and> sq_dist (3 / 4, 3 / 4) = 1 / 8 \<and> threshold \<le> sq_dist (3 / 4, 3 / 4)"
  unfolding final_ltnw_calls sq_dist_a sq_dist_b threshold_value
  by (simp add: center_def sq_dist_exact_def power2_eq_square)

end
